theory Spec2Isabelle
  imports Main
begin

section \<open>Values of the host language\<close>

text \<open>
  The module \<^verbatim>\<open>src/log.ts\<close> is TypeScript on Node. An optional string parameter
  (\<^verbatim>\<open>method?: string\<close>) is a \<open>string option\<close>, \<open>None\<close> standing for
  \<^verbatim>\<open>undefined\<close>. A call either returns or throws, and in both cases the effects it had
  so far stay: every effectful operation returns an outcome together with the new state.
  A thrown error is kept as the text that \<^verbatim>\<open>`${error}`\<close> renders.
\<close>

datatype 'a outcome = Returns 'a | Throws string

datatype jsval = Undefined | Val string

text \<open>The conditional \<^verbatim>\<open>method ? a : b\<close> tests truthiness: \<^verbatim>\<open>undefined\<close> and the empty
  string are both falsy.\<close>

fun truthy :: "string option \<Rightarrow> bool" where
  "truthy None = False"
| "truthy (Some s) = (s \<noteq> [])"

text \<open>What a template literal \<^verbatim>\<open>`${x}`\<close> renders for an optional string.\<close>

fun template_str :: "string option \<Rightarrow> string" where
  "template_str None = ''undefined''"
| "template_str (Some s) = s"

text \<open>Rendering of an integral number in a template literal: decimal digits, a leading minus
  sign for a negative one.\<close>

fun nat_digits :: "nat \<Rightarrow> string" where
  "nat_digits n =
     (if n < 10 then [''0123456789'' ! n]
      else nat_digits (n div 10) @ [''0123456789'' ! (n mod 10)])"

definition Number_toString :: "int \<Rightarrow> string" where
  "Number_toString i =
     (if i < 0 then CHR ''-'' # nat_digits (nat (- i)) else nat_digits (nat i))"

subsection \<open>\<^verbatim>\<open>String.prototype.replace\<close> with a string pattern\<close>

text \<open>
  \<^verbatim>\<open>s.replace(pattern, replacement)\<close> with two strings replaces the first occurrence of
  the pattern only, and expands the dollar patterns of the replacement: \<^verbatim>\<open>$$\<close> is a
  dollar sign, \<^verbatim>\<open>$&\<close> the matched text, \<^verbatim>\<open>$`\<close> the text before the match and
  \<^verbatim>\<open>$'\<close> the text after it. There are no capture groups, so any other dollar sign
  stands for itself.
\<close>

fun split_at_first :: "string \<Rightarrow> string \<Rightarrow> (string \<times> string) option" where
  "split_at_first pat [] = (if pat = [] then Some ([], []) else None)"
| "split_at_first pat (c # cs) =
     (if take (length pat) (c # cs) = pat then Some ([], drop (length pat) (c # cs))
      else (case split_at_first pat cs of
              None \<Rightarrow> None
            | Some (before, after) \<Rightarrow> Some (c # before, after)))"

fun GetSubstitution :: "string \<Rightarrow> string \<Rightarrow> string \<Rightarrow> string \<Rightarrow> string" where
  "GetSubstitution matched before after [] = []"
| "GetSubstitution matched before after [c] = [c]"
| "GetSubstitution matched before after (c # d # t) =
     (if c = CHR ''$'' then
        (if d = CHR ''$'' then CHR ''$'' # GetSubstitution matched before after t
         else if d = CHR ''&'' then matched @ GetSubstitution matched before after t
         else if d = CHR 0x60 then before @ GetSubstitution matched before after t
         else if d = CHR 0x27 then after @ GetSubstitution matched before after t
         else c # GetSubstitution matched before after (d # t))
      else c # GetSubstitution matched before after (d # t))"

definition String_replace :: "string \<Rightarrow> string \<Rightarrow> string \<Rightarrow> string" where
  "String_replace s pat replacement =
     (case split_at_first pat s of
        None \<Rightarrow> s
      | Some (before, after) \<Rightarrow> before @ GetSubstitution pat before after replacement @ after)"

section \<open>The file system\<close>

text \<open>
  A path is the list of its segments, so \<^verbatim>\<open>join(p, name)\<close> appends one segment. The file
  system holds the directories, the regular files with their contents, and the fault (disk
  full, missing permission) that the device answers every write with, if any. The counter
  \<open>append_calls\<close> records how many times \<^verbatim>\<open>appendFileSync\<close> was entered.
\<close>

type_synonym path = "string list"

record filesystem =
  dirs :: "path list"
  files :: "path \<rightharpoonup> string"
  io_fault :: "string option"
  append_calls :: nat

definition join :: "path \<Rightarrow> string \<Rightarrow> path" where
  "join p name = p @ [name]"

definition existsSync :: "filesystem \<Rightarrow> path \<Rightarrow> bool" where
  "existsSync d p = (case files d p of None \<Rightarrow> p \<in> set (dirs d) | Some s \<Rightarrow> True)"

definition is_file :: "filesystem \<Rightarrow> path \<Rightarrow> bool" where
  "is_file d p = (case files d p of None \<Rightarrow> False | Some s \<Rightarrow> True)"

definition ancestors :: "path \<Rightarrow> path list" where
  "ancestors p = map (\<lambda>n. take n p) [1..<Suc (length p)]"

text \<open>\<^verbatim>\<open>mkdirSync(p, { recursive: true })\<close>: creates the directory and every missing
  directory above it; throws on a device fault or where a regular file is in the way.\<close>

definition mkdirSync :: "filesystem \<Rightarrow> path \<Rightarrow> unit outcome \<times> filesystem" where
  "mkdirSync d p =
     (case io_fault d of
        Some e \<Rightarrow> (Throws e, d)
      | None \<Rightarrow>
          if list_ex (is_file d) (ancestors p) then (Throws ''Error: ENOTDIR'', d)
          else (Returns (), d\<lparr>dirs := dirs d @ filter (\<lambda>q. q \<notin> set (dirs d)) (ancestors p)\<rparr>))"

definition file_content :: "filesystem \<Rightarrow> path \<Rightarrow> string" where
  "file_content d p = (case files d p of None \<Rightarrow> [] | Some s \<Rightarrow> s)"

text \<open>\<^verbatim>\<open>appendFileSync(p, data)\<close>: appends to the file, creating it when it is missing;
  throws on a device fault, on a directory at \<open>p\<close>, and where the containing directory is
  missing. It never creates a directory.\<close>

definition appendFileSync :: "filesystem \<Rightarrow> path \<Rightarrow> string \<Rightarrow> unit outcome \<times> filesystem" where
  "appendFileSync d p data =
     (let d1 = d\<lparr>append_calls := Suc (append_calls d)\<rparr> in
      case io_fault d of
        Some e \<Rightarrow> (Throws e, d1)
      | None \<Rightarrow>
          if p \<in> set (dirs d) then (Throws ''Error: EISDIR'', d1)
          else if butlast p \<notin> set (dirs d) then (Throws ''Error: ENOENT'', d1)
          else (Returns (),
                d1\<lparr>files := (files d)(p \<mapsto> file_content d p @ data)\<rparr>))"

section \<open>The logging module\<close>

datatype LogLevel = INFO | WARN | ERROR | DEBUG

text \<open>The enumeration's members are the strings of their names.\<close>

fun level_str :: "LogLevel \<Rightarrow> string" where
  "level_str INFO = ''INFO''"
| "level_str WARN = ''WARN''"
| "level_str ERROR = ''ERROR''"
| "level_str DEBUG = ''DEBUG''"

text \<open>
  What the module takes from its host and never changes: the working directory, the locale's
  rendering of an instant (\<^verbatim>\<open>toLocaleString\<close>) and the five colour functions of the
  \<^verbatim>\<open>chalk\<close> package. None of them is part of the repository, so they are parameters.
\<close>

record host =
  cwd :: path
  toLocaleString :: "int \<Rightarrow> string"
  chalk_cyan :: "string \<Rightarrow> string"
  chalk_red :: "string \<Rightarrow> string"
  chalk_yellow :: "string \<Rightarrow> string"
  chalk_gray :: "string \<Rightarrow> string"
  chalk_blue :: "string \<Rightarrow> string"

datatype console_method = console_error | console_warn | console_debug | console_log

text \<open>
  An adapter is any object with a \<^verbatim>\<open>log(level, message, method?)\<close> operation. Besides the
  built-in one, an adapter is known by a number and by the error, if any, that its
  \<^verbatim>\<open>log\<close> throws on given arguments.
\<close>

datatype adapter =
    DefaultLogAdapter
  | CustomAdapter nat "LogLevel \<Rightarrow> string \<Rightarrow> string option \<Rightarrow> string option"

text \<open>
  The method \<^verbatim>\<open>end\<close> of a response object: the host's own, or the closure that
  \<^verbatim>\<open>logger\<close> installs, which holds \<^verbatim>\<open>requestId\<close>, \<^verbatim>\<open>url\<close>, \<^verbatim>\<open>method\<close>,
  \<^verbatim>\<open>startTime\<close> and \<^verbatim>\<open>originalEnd\<close>.
\<close>

datatype end_method =
    NativeEnd
  | LoggingEnd string string string int end_method

record request =
  req_method :: string
  req_url :: string
  req_requestId :: "string option"

text \<open>
  The state of the process. \<open>logAdapter\<close> is the module's variable of that name. The
  clock and the random source are read one value at a time. Requests and responses are
  objects in a store, addressed by number, so that a change to \<^verbatim>\<open>res.end\<close> is seen by
  everyone who holds the response. Three fields only observe: \<open>dispatched\<close> lists every
  call of an adapter's \<^verbatim>\<open>log\<close> with its receiver and arguments, \<open>finalized\<close> every call
  of the host's own \<^verbatim>\<open>end\<close> with its arguments, and \<open>next_calls\<close> counts the calls of
  a continuation by the middleware.
\<close>

record world =
  disk :: filesystem
  console :: "(console_method \<times> string) list"
  logAdapter :: adapter
  time_source :: "nat \<Rightarrow> int"
  time_reads :: nat
  uuid_source :: "nat \<Rightarrow> string"
  uuid_reads :: nat
  requests :: "nat \<Rightarrow> request"
  responses :: "nat \<Rightarrow> end_method"
  dispatched :: "(adapter \<times> LogLevel \<times> string \<times> string option) list"
  finalized :: "(nat \<times> jsval list) list"
  next_calls :: nat

definition Date_now :: "world \<Rightarrow> int \<times> world" where
  "Date_now w = (time_source w (time_reads w), w\<lparr>time_reads := Suc (time_reads w)\<rparr>)"

definition randomUUID :: "world \<Rightarrow> string \<times> world" where
  "randomUUID w = (uuid_source w (uuid_reads w), w\<lparr>uuid_reads := Suc (uuid_reads w)\<rparr>)"

definition console_write :: "console_method \<Rightarrow> string \<Rightarrow> world \<Rightarrow> unit outcome \<times> world" where
  "console_write m s w = (Returns (), w\<lparr>console := console w @ [(m, s)]\<rparr>)"

subsection \<open>Module initialisation (lines 15 to 18 and 64)\<close>

definition logDir :: "host \<Rightarrow> path" where
  "logDir h = join (cwd h) ''log''"

definition module_load :: "host \<Rightarrow> world \<Rightarrow> unit outcome \<times> world" where
  "module_load h w =
     (if \<not> existsSync (disk w) (logDir h) then
        (case mkdirSync (disk w) (logDir h) of
           (Throws e, d) \<Rightarrow> (Throws e, w\<lparr>disk := d\<rparr>)
         | (Returns u, d) \<Rightarrow> (Returns (), w\<lparr>disk := d, logAdapter := DefaultLogAdapter\<rparr>))
      else (Returns (), w\<lparr>logAdapter := DefaultLogAdapter\<rparr>))"

subsection \<open>\<^verbatim>\<open>DefaultLogAdapter.log\<close> (lines 36 to 61)\<close>

definition methodColor :: "host \<Rightarrow> string option \<Rightarrow> string" where
  "methodColor h method =
     (if truthy method then chalk_cyan h (template_str method @ '' '') else [])"

definition logMessage :: "LogLevel \<Rightarrow> string \<Rightarrow> string option \<Rightarrow> string \<Rightarrow> string" where
  "logMessage level message method timestamp =
     ''['' @ level_str level @ ''] ''
       @ (if truthy method then template_str method @ '' '' else [])
       @ timestamp @ '': '' @ message @ [CHR 0x0A]"

definition coloredMessage :: "host \<Rightarrow> LogLevel \<Rightarrow> string \<Rightarrow> string option \<Rightarrow> string \<Rightarrow> string" where
  "coloredMessage h level message method timestamp =
     ''['' @ level_str level @ ''] '' @ methodColor h method
       @ timestamp @ '': '' @ message @ [CHR 0x0A]"

definition level_tag :: "LogLevel \<Rightarrow> string" where
  "level_tag level = ''['' @ level_str level @ '']''"

text \<open>The statements inside \<^verbatim>\<open>try\<close>: the first throw ends them.\<close>

definition log_try :: "host \<Rightarrow> LogLevel \<Rightarrow> string \<Rightarrow> string option \<Rightarrow> world \<Rightarrow> unit outcome \<times> world" where
  "log_try h level message method w =
     (case Date_now w of (t, w1) \<Rightarrow>
        (let timestamp = toLocaleString h t in
         case appendFileSync (disk w1) (join (logDir h) ''app.log'')
                (logMessage level message method timestamp) of
           (Throws e, d) \<Rightarrow> (Throws e, w1\<lparr>disk := d\<rparr>)
         | (Returns u, d) \<Rightarrow>
             (let w2 = w1\<lparr>disk := d\<rparr>;
                  colored = coloredMessage h level message method timestamp
              in case level of
                   ERROR \<Rightarrow> console_write console_error
                     (String_replace colored (level_tag level) (chalk_red h (level_tag level))) w2
                 | WARN \<Rightarrow> console_write console_warn
                     (String_replace colored (level_tag level) (chalk_yellow h (level_tag level))) w2
                 | DEBUG \<Rightarrow> console_write console_debug
                     (String_replace colored (level_tag level) (chalk_gray h (level_tag level))) w2
                 | INFO \<Rightarrow> console_write console_log
                     (String_replace colored (level_tag level) (chalk_blue h (level_tag level))) w2)))"

definition DefaultLogAdapter_log :: "host \<Rightarrow> LogLevel \<Rightarrow> string \<Rightarrow> string option \<Rightarrow> world \<Rightarrow> unit outcome \<times> world" where
  "DefaultLogAdapter_log h level message method w =
     (case log_try h level message method w of
        (Throws e, w1) \<Rightarrow> console_write console_error (''Failed to write log: '' @ e) w1
      | (Returns u, w1) \<Rightarrow> (Returns (), w1))"

subsection \<open>The binding and \<^verbatim>\<open>writeLog\<close> (lines 64 to 91)\<close>

text \<open>A call \<^verbatim>\<open>a.log(level, message, method)\<close> on whatever adapter \<open>a\<close> is.\<close>

definition adapter_log :: "host \<Rightarrow> adapter \<Rightarrow> LogLevel \<Rightarrow> string \<Rightarrow> string option \<Rightarrow> world \<Rightarrow> unit outcome \<times> world" where
  "adapter_log h a level message method w =
     (let w1 = w\<lparr>dispatched := dispatched w @ [(a, level, message, method)]\<rparr> in
      case a of
        DefaultLogAdapter \<Rightarrow> DefaultLogAdapter_log h level message method w1
      | CustomAdapter n throws \<Rightarrow>
          (case throws level message method of
             None \<Rightarrow> (Returns (), w1)
           | Some e \<Rightarrow> (Throws e, w1)))"

definition setLogAdapter :: "adapter \<Rightarrow> world \<Rightarrow> world" where
  "setLogAdapter a w = w\<lparr>logAdapter := a\<rparr>"

text \<open>The parameter \<^verbatim>\<open>level\<close> has the default \<^verbatim>\<open>LogLevel.INFO\<close>.\<close>

definition writeLog :: "host \<Rightarrow> string \<Rightarrow> LogLevel option \<Rightarrow> string option \<Rightarrow> world \<Rightarrow> unit outcome \<times> world" where
  "writeLog h message level method w =
     adapter_log h (logAdapter w) (case level of None \<Rightarrow> INFO | Some l \<Rightarrow> l) message method w"

subsection \<open>The class \<^verbatim>\<open>Log\<close> (lines 129 to 167)\<close>

definition Log_info :: "host \<Rightarrow> string \<Rightarrow> world \<Rightarrow> unit outcome \<times> world" where
  "Log_info h message w = writeLog h message (Some INFO) None w"

definition Log_warn :: "host \<Rightarrow> string \<Rightarrow> world \<Rightarrow> unit outcome \<times> world" where
  "Log_warn h message w = writeLog h message (Some WARN) None w"

definition Log_debug :: "host \<Rightarrow> string \<Rightarrow> world \<Rightarrow> unit outcome \<times> world" where
  "Log_debug h message w = writeLog h message (Some DEBUG) None w"

definition Log_error :: "host \<Rightarrow> string \<Rightarrow> world \<Rightarrow> unit outcome \<times> world" where
  "Log_error h message w = writeLog h message (Some ERROR) None w"

subsection \<open>The middleware \<^verbatim>\<open>logger\<close> (lines 101 to 127)\<close>

text \<open>An argument list read at a position: \<^verbatim>\<open>undefined\<close> beyond its end.\<close>

definition arg :: "jsval list \<Rightarrow> nat \<Rightarrow> jsval" where
  "arg args i = (if i < length args then args ! i else Undefined)"

text \<open>
  Calling the method \<^verbatim>\<open>end\<close> of response \<open>r\<close>. The closure of lines 120 to 124 reads
  the clock, logs through \<^verbatim>\<open>writeLog\<close> and, unless that threw, calls
  \<^verbatim>\<open>originalEnd(chunk, encoding, cb)\<close>. The host's own method is opaque: its call is
  recorded.
\<close>

fun call_end :: "host \<Rightarrow> end_method \<Rightarrow> nat \<Rightarrow> jsval list \<Rightarrow> world \<Rightarrow> nat outcome \<times> world" where
  "call_end h NativeEnd r args w = (Returns r, w\<lparr>finalized := finalized w @ [(r, args)]\<rparr>)"
| "call_end h (LoggingEnd requestId url method startTime originalEnd) r args w =
     (case Date_now w of (t, w1) \<Rightarrow>
        (let duration = t - startTime in
         case writeLog h
                (''['' @ requestId @ ''] '' @ url @ '' - Request completed in ''
                   @ Number_toString duration @ ''ms'')
                (Some INFO) (Some method) w1 of
           (Throws e, w2) \<Rightarrow> (Throws e, w2)
         | (Returns u, w2) \<Rightarrow> call_end h originalEnd r [arg args 0, arg args 1, arg args 2] w2))"

definition res_end :: "host \<Rightarrow> nat \<Rightarrow> jsval list \<Rightarrow> world \<Rightarrow> nat outcome \<times> world" where
  "res_end h r args w = call_end h (responses w r) r args w"

definition call_next :: "(world \<Rightarrow> unit outcome \<times> world) \<Rightarrow> world \<Rightarrow> unit outcome \<times> world" where
  "call_next next w = next (w\<lparr>next_calls := Suc (next_calls w)\<rparr>)"

text \<open>The statements of \<^verbatim>\<open>logger\<close> before \<^verbatim>\<open>next()\<close>, for request \<open>q\<close> and response
  \<open>r\<close>.\<close>

definition logger_prepare :: "host \<Rightarrow> nat \<Rightarrow> nat \<Rightarrow> world \<Rightarrow> unit outcome \<times> world" where
  "logger_prepare h q r w =
     (case randomUUID w of (requestId, w1) \<Rightarrow>
        (let method = req_method (requests w1 q);
             url = req_url (requests w1 q)
         in case Date_now w1 of (startTime, w2) \<Rightarrow>
           (let w3 = w2\<lparr>requests := (requests w2)
                          (q := (requests w2 q)\<lparr>req_requestId := Some requestId\<rparr>)\<rparr>
            in case writeLog h (''['' @ requestId @ ''] '' @ url @ '' - Request started'')
                      (Some INFO) (Some method) w3 of
                 (Throws e, w4) \<Rightarrow> (Throws e, w4)
               | (Returns u, w4) \<Rightarrow>
                   (let originalEnd = responses w4 r
                    in (Returns (),
                        w4\<lparr>responses := (responses w4)
                             (r := LoggingEnd requestId url method startTime originalEnd)\<rparr>)))))"

definition logger :: "host \<Rightarrow> nat \<Rightarrow> nat \<Rightarrow> (world \<Rightarrow> unit outcome \<times> world) \<Rightarrow> world \<Rightarrow> unit outcome \<times> world" where
  "logger h q r next w =
     (case logger_prepare h q r w of
        (Throws e, w1) \<Rightarrow> (Throws e, w1)
      | (Returns u, w1) \<Rightarrow> call_next next w1)"

section \<open>Notions used to state the properties\<close>

text \<open>The \<^verbatim>\<open>switch\<close> of lines 45 to 57 read as two tables: the console method and the
  colour of the tag for each level.\<close>

fun stream_of :: "LogLevel \<Rightarrow> console_method" where
  "stream_of ERROR = console_error"
| "stream_of WARN = console_warn"
| "stream_of DEBUG = console_debug"
| "stream_of INFO = console_log"

fun tag_colour :: "host \<Rightarrow> LogLevel \<Rightarrow> string \<Rightarrow> string" where
  "tag_colour h ERROR = chalk_red h"
| "tag_colour h WARN = chalk_yellow h"
| "tag_colour h DEBUG = chalk_gray h"
| "tag_colour h INFO = chalk_blue h"

definition log_path :: "host \<Rightarrow> path" where
  "log_path h = join (logDir h) ''app.log''"

definition console_line :: "host \<Rightarrow> LogLevel \<Rightarrow> string \<Rightarrow> string option \<Rightarrow> string \<Rightarrow> string" where
  "console_line h level message method timestamp =
     String_replace (coloredMessage h level message method timestamp)
       (level_tag level) (tag_colour h level (level_tag level))"

text \<open>The plain line in the words of the specification: the method and one space whenever a
  method was supplied.\<close>

definition spec_plain_line :: "LogLevel \<Rightarrow> string \<Rightarrow> string option \<Rightarrow> string \<Rightarrow> string" where
  "spec_plain_line level message method timestamp =
     ''['' @ level_str level @ ''] ''
       @ (case method of None \<Rightarrow> [] | Some m \<Rightarrow> m @ '' '')
       @ timestamp @ '': '' @ message @ [CHR 0x0A]"


subsection \<open>A concrete process\<close>

definition ansi :: "string \<Rightarrow> string \<Rightarrow> string \<Rightarrow> string" where
  "ansi opening closing s =
     CHR 0x1B # ''['' @ opening @ ''m'' @ s @ CHR 0x1B # ''['' @ closing @ ''m''"

definition example_host :: host where
  "example_host =
     \<lparr>cwd = [''srv'', ''app''],
      toLocaleString = (\<lambda>t. ''t'' @ Number_toString t),
      chalk_cyan = ansi ''36'' ''39'',
      chalk_red = ansi ''31'' ''39'',
      chalk_yellow = ansi ''33'' ''39'',
      chalk_gray = ansi ''90'' ''39'',
      chalk_blue = ansi ''34'' ''39''\<rparr>"

definition example_disk :: filesystem where
  "example_disk =
     \<lparr>dirs = [[''srv''], [''srv'', ''app'']], files = Map.empty, io_fault = None,
      append_calls = 0\<rparr>"

definition example_world :: world where
  "example_world =
     \<lparr>disk = example_disk, console = [], logAdapter = DefaultLogAdapter,
      time_source = (\<lambda>n. 1000 + 7 * int n), time_reads = 0,
      uuid_source = (\<lambda>n. ''id'' @ nat_digits n), uuid_reads = 0,
      requests = (\<lambda>q. \<lparr>req_method = ''GET'', req_url = ''/health'', req_requestId = None\<rparr>),
      responses = (\<lambda>r. NativeEnd),
      dispatched = [], finalized = [], next_calls = 0\<rparr>"

definition full_disk_world :: world where
  "full_disk_world = example_world\<lparr>disk := example_disk\<lparr>io_fault := Some ''Error: ENOSPC''\<rparr>\<rparr>"

definition failing_adapter :: adapter where
  "failing_adapter = CustomAdapter 1 (\<lambda>level message method. Some ''Error: sink closed'')"

definition quiet_adapter :: adapter where
  "quiet_adapter = CustomAdapter 2 (\<lambda>level message method. None)"

definition continue_ok :: "world \<Rightarrow> unit outcome \<times> world" where
  "continue_ok w = (Returns (), w)"

text \<open>The example process once the module is loaded.\<close>

definition loaded_world :: world where
  "loaded_world = snd (module_load example_host example_world)"

text \<open>The example process after one request went through the middleware, and the loaded
  process with an adapter bound whose \<^verbatim>\<open>log\<close> throws.\<close>

definition served_world :: world where
  "served_world = snd (logger example_host 0 0 continue_ok loaded_world)"

definition throwing_world :: world where
  "throwing_world = setLogAdapter failing_adapter loaded_world"

section \<open>Properties of the operations\<close>

subsection \<open>String replacement\<close>




subsection \<open>Rendering of numbers\<close>

lemma nat_digits_are_digits: "set (nat_digits n) \<subseteq> set ''0123456789''"
proof (induction n rule: nat_digits.induct)
  case (1 n)
  have d: "\<And>k. k < 10 \<Longrightarrow> ''0123456789'' ! k \<in> set ''0123456789''"
    by (rule nth_mem) simp
  show ?case
  proof (cases "n < 10")
    case True
    then show ?thesis using d[of n] by (subst nat_digits.simps) simp
  next
    case False
    have "n mod 10 < 10" by simp
    then show ?thesis
      using False "1.IH" d[of "n mod 10"] by (subst nat_digits.simps) simp
  qed
qed

lemma Number_toString_nonneg_digits:
  "0 \<le> i \<Longrightarrow> set (Number_toString i) \<subseteq> set ''0123456789''"
  using nat_digits_are_digits[of "nat i"] by (simp add: Number_toString_def)

lemma Number_toString_14: "Number_toString 14 = ''14''"
  by (simp add: Number_toString_def)

subsection \<open>The file system operations\<close>

lemma appendFileSync_throws_keeps:
  assumes "appendFileSync d p s = (Throws e, d')"
  shows "d' = d\<lparr>append_calls := Suc (append_calls d)\<rparr>"
  using assms by (auto simp: appendFileSync_def Let_def split: option.splits if_splits)

lemma appendFileSync_counts:
  "append_calls (snd (appendFileSync d p s)) = Suc (append_calls d)"
  by (auto simp: appendFileSync_def Let_def split: option.splits)

lemma appendFileSync_returns_content:
  assumes "appendFileSync d p s = (Returns (), d')"
  shows "file_content d' p = file_content d p @ s"
  using assms
  by (auto simp: appendFileSync_def Let_def file_content_def split: option.splits if_splits)

lemma appendFileSync_dirs: "dirs (snd (appendFileSync d p s)) = dirs d"
  by (simp add: appendFileSync_def Let_def split: option.splits)

lemma appendFileSync_other_files:
  "q \<noteq> p \<Longrightarrow> files (snd (appendFileSync d p s)) q = files d q"
  by (simp add: appendFileSync_def Let_def split: option.splits)

lemma appendFileSync_returns_file:
  "appendFileSync d p s = (Returns (), d') \<Longrightarrow> is_file d' p"
  by (auto simp: appendFileSync_def Let_def is_file_def split: option.splits if_splits)

lemma mkdirSync_files: "files (snd (mkdirSync d p)) = files d"
  by (simp add: mkdirSync_def split: option.splits)

lemma mkdirSync_append_calls: "append_calls (snd (mkdirSync d p)) = append_calls d"
  by (simp add: mkdirSync_def split: option.splits)

lemma self_in_ancestors: "p \<noteq> [] \<Longrightarrow> p \<in> set (ancestors p)"
proof -
  assume "p \<noteq> []"
  then have "length p \<in> set [1..<Suc (length p)]" by (cases p) auto
  then have "take (length p) p \<in> set (ancestors p)"
    unfolding ancestors_def by (metis (no_types, lifting) image_eqI list.set_map)
  then show ?thesis by simp
qed

lemma mkdirSync_creates:
  assumes "fst (mkdirSync d p) = Returns ()" "p \<noteq> []"
  shows "p \<in> set (dirs (snd (mkdirSync d p)))"
  using assms self_in_ancestors[of p]
  by (auto simp: mkdirSync_def split: option.splits if_splits)

subsection \<open>Loading the module\<close>

lemma module_load_exists:
  assumes "fst (module_load h w) = Returns ()"
  shows "existsSync (disk (snd (module_load h w))) (logDir h)"
proof (cases "existsSync (disk w) (logDir h)")
  case True
  then show ?thesis by (simp add: module_load_def)
next
  case False
  obtain o1 d where m: "mkdirSync (disk w) (logDir h) = (o1, d)" by (cases "mkdirSync (disk w) (logDir h)")
  with assms False have r: "o1 = Returns ()"
    by (cases o1) (simp_all add: module_load_def)
  have ne: "logDir h \<noteq> []" by (simp add: logDir_def join_def)
  have "logDir h \<in> set (dirs d)"
    using mkdirSync_creates[of "disk w" "logDir h"] m r ne by simp
  moreover have "snd (module_load h w) = w\<lparr>disk := d, logAdapter := DefaultLogAdapter\<rparr>"
    using False m r by (simp add: module_load_def)
  ultimately show ?thesis
    by (simp add: existsSync_def split: option.splits)
qed

lemma module_load_files:
  "files (disk (snd (module_load h w))) = files (disk w)"
  "append_calls (disk (snd (module_load h w))) = append_calls (disk w)"
  "dispatched (snd (module_load h w)) = dispatched w"
  using mkdirSync_files[of "disk w" "logDir h"] mkdirSync_append_calls[of "disk w" "logDir h"]
  by (auto simp: module_load_def split: prod.splits outcome.splits)

subsection \<open>The two ways through the built-in adapter\<close>

lemma log_try_ok:
  assumes "appendFileSync (disk w) (log_path h)
             (logMessage l m meth (toLocaleString h (time_source w (time_reads w)))) = (Returns (), d)"
  shows "log_try h l m meth w =
           (Returns (), w\<lparr>time_reads := Suc (time_reads w), disk := d,
              console := console w @
                [(stream_of l, console_line h l m meth (toLocaleString h (time_source w (time_reads w))))]\<rparr>)"
  using assms
  by (cases l) (simp_all add: log_try_def Date_now_def console_write_def Let_def log_path_def console_line_def)

lemma log_try_fail:
  assumes "appendFileSync (disk w) (log_path h)
             (logMessage l m meth (toLocaleString h (time_source w (time_reads w)))) = (Throws e, d)"
  shows "log_try h l m meth w = (Throws e, w\<lparr>time_reads := Suc (time_reads w), disk := d\<rparr>)"
  using assms
  by (simp add: log_try_def Date_now_def Let_def log_path_def)

lemma DefaultLogAdapter_log_ok:
  assumes "appendFileSync (disk w) (log_path h)
             (logMessage l m meth (toLocaleString h (time_source w (time_reads w)))) = (Returns (), d)"
  shows "DefaultLogAdapter_log h l m meth w =
           (Returns (), w\<lparr>time_reads := Suc (time_reads w), disk := d,
              console := console w @
                [(stream_of l, console_line h l m meth (toLocaleString h (time_source w (time_reads w))))]\<rparr>)"
  by (simp add: DefaultLogAdapter_log_def log_try_ok[OF assms])

lemma DefaultLogAdapter_log_fail:
  assumes "appendFileSync (disk w) (log_path h)
             (logMessage l m meth (toLocaleString h (time_source w (time_reads w)))) = (Throws e, d)"
  shows "DefaultLogAdapter_log h l m meth w =
           (Returns (), w\<lparr>time_reads := Suc (time_reads w), disk := d,
              console := console w @ [(console_error, ''Failed to write log: '' @ e)]\<rparr>)"
  by (simp add: DefaultLogAdapter_log_def log_try_fail[OF assms] console_write_def)

lemma DefaultLogAdapter_log_cases:
  obtains (ok) d where
      "appendFileSync (disk w) (log_path h)
         (logMessage l m meth (toLocaleString h (time_source w (time_reads w)))) = (Returns (), d)"
  | (fail) e d where
      "appendFileSync (disk w) (log_path h)
         (logMessage l m meth (toLocaleString h (time_source w (time_reads w)))) = (Throws e, d)"
proof (cases "appendFileSync (disk w) (log_path h)
         (logMessage l m meth (toLocaleString h (time_source w (time_reads w))))")
  case (Pair a b)
  then show ?thesis using ok fail by (cases a) auto
qed

lemma DefaultLogAdapter_log_returns:
  "fst (DefaultLogAdapter_log h l m meth w) = Returns ()"
  by (cases rule: DefaultLogAdapter_log_cases[of w h l m meth])
     (simp_all add: DefaultLogAdapter_log_ok DefaultLogAdapter_log_fail)

lemma DefaultLogAdapter_log_disk:
  "disk (snd (DefaultLogAdapter_log h l m meth w)) =
     snd (appendFileSync (disk w) (log_path h)
            (logMessage l m meth (toLocaleString h (time_source w (time_reads w)))))"
  by (cases rule: DefaultLogAdapter_log_cases[of w h l m meth])
     (simp_all add: DefaultLogAdapter_log_ok DefaultLogAdapter_log_fail)

lemma DefaultLogAdapter_log_clock:
  "time_reads (snd (DefaultLogAdapter_log h l m meth w)) = Suc (time_reads w)"
  by (cases rule: DefaultLogAdapter_log_cases[of w h l m meth])
     (simp_all add: DefaultLogAdapter_log_ok DefaultLogAdapter_log_fail)


subsection \<open>What a log call leaves alone\<close>

lemma DefaultLogAdapter_log_keeps:
  "logAdapter (snd (DefaultLogAdapter_log h l m meth w)) = logAdapter w"
  "dispatched (snd (DefaultLogAdapter_log h l m meth w)) = dispatched w"
  "finalized (snd (DefaultLogAdapter_log h l m meth w)) = finalized w"
  "next_calls (snd (DefaultLogAdapter_log h l m meth w)) = next_calls w"
  "responses (snd (DefaultLogAdapter_log h l m meth w)) = responses w"
  "requests (snd (DefaultLogAdapter_log h l m meth w)) = requests w"
  "time_source (snd (DefaultLogAdapter_log h l m meth w)) = time_source w"
  "uuid_source (snd (DefaultLogAdapter_log h l m meth w)) = uuid_source w"
  "uuid_reads (snd (DefaultLogAdapter_log h l m meth w)) = uuid_reads w"
  by (cases rule: DefaultLogAdapter_log_cases[of w h l m meth];
      simp add: DefaultLogAdapter_log_ok DefaultLogAdapter_log_fail)+

lemma adapter_log_keeps:
  "logAdapter (snd (adapter_log h a l m meth w)) = logAdapter w"
  "dispatched (snd (adapter_log h a l m meth w)) = dispatched w @ [(a, l, m, meth)]"
  "finalized (snd (adapter_log h a l m meth w)) = finalized w"
  "next_calls (snd (adapter_log h a l m meth w)) = next_calls w"
  "responses (snd (adapter_log h a l m meth w)) = responses w"
  "requests (snd (adapter_log h a l m meth w)) = requests w"
  "time_source (snd (adapter_log h a l m meth w)) = time_source w"
  "uuid_source (snd (adapter_log h a l m meth w)) = uuid_source w"
  "uuid_reads (snd (adapter_log h a l m meth w)) = uuid_reads w"
  by (cases a; simp add: adapter_log_def Let_def DefaultLogAdapter_log_keeps split: option.splits)+

lemma writeLog_keeps:
  "logAdapter (snd (writeLog h m lv meth w)) = logAdapter w"
  "dispatched (snd (writeLog h m lv meth w)) =
     dispatched w @ [(logAdapter w, case lv of None \<Rightarrow> INFO | Some l \<Rightarrow> l, m, meth)]"
  "finalized (snd (writeLog h m lv meth w)) = finalized w"
  "next_calls (snd (writeLog h m lv meth w)) = next_calls w"
  "responses (snd (writeLog h m lv meth w)) = responses w"
  "requests (snd (writeLog h m lv meth w)) = requests w"
  "time_source (snd (writeLog h m lv meth w)) = time_source w"
  "uuid_source (snd (writeLog h m lv meth w)) = uuid_source w"
  "uuid_reads (snd (writeLog h m lv meth w)) = uuid_reads w"
  by (simp_all add: writeLog_def adapter_log_keeps)

lemma writeLog_default_returns:
  "logAdapter w = DefaultLogAdapter \<Longrightarrow> fst (writeLog h m lv meth w) = Returns ()"
  by (simp add: writeLog_def adapter_log_def Let_def DefaultLogAdapter_log_returns)

lemma writeLog_custom_outcome:
  "logAdapter w = CustomAdapter n f \<Longrightarrow>
   fst (writeLog h m lv meth w) =
     (case f (case lv of None \<Rightarrow> INFO | Some l \<Rightarrow> l) m meth of
        None \<Rightarrow> Returns () | Some e \<Rightarrow> Throws e)"
  by (simp add: writeLog_def adapter_log_def Let_def split: option.splits)

lemma writeLog_default_clock:
  "logAdapter w = DefaultLogAdapter \<Longrightarrow>
   time_reads (snd (writeLog h m lv meth w)) = Suc (time_reads w)"
  by (simp add: writeLog_def adapter_log_def Let_def DefaultLogAdapter_log_clock)

subsection \<open>The middleware before the continuation\<close>

text \<open>The state in which \<^verbatim>\<open>logger\<close> makes its log call.\<close>

lemma logger_prepare_unfold:
  "logger_prepare h q r w =
     (case writeLog h (''['' @ uuid_source w (uuid_reads w) @ ''] '' @ req_url (requests w q)
                         @ '' - Request started'')
             (Some INFO) (Some (req_method (requests w q)))
             (w\<lparr>uuid_reads := Suc (uuid_reads w), time_reads := Suc (time_reads w),
                requests := (requests w)
                  (q := (requests w q)\<lparr>req_requestId := Some (uuid_source w (uuid_reads w))\<rparr>)\<rparr>) of
        (Throws e, w4) \<Rightarrow> (Throws e, w4)
      | (Returns u, w4) \<Rightarrow>
          (Returns (),
           w4\<lparr>responses := (responses w4)
                (r := LoggingEnd (uuid_source w (uuid_reads w)) (req_url (requests w q))
                        (req_method (requests w q)) (time_source w (time_reads w))
                        (responses w4 r))\<rparr>))"
  by (simp add: logger_prepare_def randomUUID_def Date_now_def Let_def split: prod.splits outcome.splits)

lemma logger_prepare_keeps:
  "dispatched (snd (logger_prepare h q r w)) =
     dispatched w @ [(logAdapter w, INFO,
        ''['' @ uuid_source w (uuid_reads w) @ ''] '' @ req_url (requests w q) @ '' - Request started'',
        Some (req_method (requests w q)))]"
  "logAdapter (snd (logger_prepare h q r w)) = logAdapter w"
  "next_calls (snd (logger_prepare h q r w)) = next_calls w"
  "finalized (snd (logger_prepare h q r w)) = finalized w"
proof -
  let ?w3 = "w\<lparr>uuid_reads := Suc (uuid_reads w), time_reads := Suc (time_reads w),
                requests := (requests w)
                  (q := (requests w q)\<lparr>req_requestId := Some (uuid_source w (uuid_reads w))\<rparr>)\<rparr>"
  let ?msg = "''['' @ uuid_source w (uuid_reads w) @ ''] '' @ req_url (requests w q) @ '' - Request started''"
  let ?m = "Some (req_method (requests w q))"
  obtain o1 w4 where wl: "writeLog h ?msg (Some INFO) ?m ?w3 = (o1, w4)"
    by (cases "writeLog h ?msg (Some INFO) ?m ?w3")
  have k: "dispatched w4 = dispatched w @ [(logAdapter w, INFO, ?msg, ?m)]"
    "logAdapter w4 = logAdapter w" "next_calls w4 = next_calls w" "finalized w4 = finalized w"
    using writeLog_keeps[of h ?msg "Some INFO" ?m ?w3] wl by simp_all
  show "dispatched (snd (logger_prepare h q r w)) = dispatched w @ [(logAdapter w, INFO, ?msg, ?m)]"
    "logAdapter (snd (logger_prepare h q r w)) = logAdapter w"
    "next_calls (snd (logger_prepare h q r w)) = next_calls w"
    "finalized (snd (logger_prepare h q r w)) = finalized w"
    using k wl by (cases o1; simp add: logger_prepare_unfold)+
qed

lemma logger_prepare_installs:
  assumes "fst (logger_prepare h q r w) = Returns ()"
  shows "responses (snd (logger_prepare h q r w)) =
           (responses w)(r := LoggingEnd (uuid_source w (uuid_reads w)) (req_url (requests w q))
                        (req_method (requests w q)) (time_source w (time_reads w)) (responses w r))"
proof -
  let ?w3 = "w\<lparr>uuid_reads := Suc (uuid_reads w), time_reads := Suc (time_reads w),
                requests := (requests w)
                  (q := (requests w q)\<lparr>req_requestId := Some (uuid_source w (uuid_reads w))\<rparr>)\<rparr>"
  let ?msg = "''['' @ uuid_source w (uuid_reads w) @ ''] '' @ req_url (requests w q) @ '' - Request started''"
  let ?m = "Some (req_method (requests w q))"
  obtain o1 w4 where wl: "writeLog h ?msg (Some INFO) ?m ?w3 = (o1, w4)"
    by (cases "writeLog h ?msg (Some INFO) ?m ?w3")
  have k: "responses w4 = responses w"
    using writeLog_keeps[of h ?msg "Some INFO" ?m ?w3] wl by simp
  show ?thesis
    using assms k wl by (cases o1) (simp_all add: logger_prepare_unfold)
qed

lemma logger_prepare_outcome:
  "fst (logger_prepare h q r w) =
     fst (writeLog h (''['' @ uuid_source w (uuid_reads w) @ ''] '' @ req_url (requests w q)
                         @ '' - Request started'')
             (Some INFO) (Some (req_method (requests w q)))
             (w\<lparr>uuid_reads := Suc (uuid_reads w), time_reads := Suc (time_reads w),
                requests := (requests w)
                  (q := (requests w q)\<lparr>req_requestId := Some (uuid_source w (uuid_reads w))\<rparr>)\<rparr>))"
  by (simp add: logger_prepare_unfold split: prod.splits outcome.splits)

lemma logger_prepare_default_returns:
  "logAdapter w = DefaultLogAdapter \<Longrightarrow> fst (logger_prepare h q r w) = Returns ()"
  by (simp add: logger_prepare_outcome writeLog_default_returns)

lemma logger_prepare_clock:
  "time_source (snd (logger_prepare h q r w)) = time_source w"
  "logAdapter w = DefaultLogAdapter \<Longrightarrow>
   time_reads (snd (logger_prepare h q r w)) = Suc (Suc (time_reads w))"
proof -
  let ?w3 = "w\<lparr>uuid_reads := Suc (uuid_reads w), time_reads := Suc (time_reads w),
                requests := (requests w)
                  (q := (requests w q)\<lparr>req_requestId := Some (uuid_source w (uuid_reads w))\<rparr>)\<rparr>"
  let ?msg = "''['' @ uuid_source w (uuid_reads w) @ ''] '' @ req_url (requests w q) @ '' - Request started''"
  let ?m = "Some (req_method (requests w q))"
  obtain o1 w4 where wl: "writeLog h ?msg (Some INFO) ?m ?w3 = (o1, w4)"
    by (cases "writeLog h ?msg (Some INFO) ?m ?w3")
  have k: "time_source w4 = time_source w"
    using writeLog_keeps[of h ?msg "Some INFO" ?m ?w3] wl by simp
  show "time_source (snd (logger_prepare h q r w)) = time_source w"
    unfolding logger_prepare_unfold using k wl by (cases o1) simp_all
  assume d: "logAdapter w = DefaultLogAdapter"
  have c: "time_reads w4 = Suc (Suc (time_reads w))"
    using writeLog_default_clock[of ?w3 h ?msg "Some INFO" ?m] d wl by simp
  show "time_reads (snd (logger_prepare h q r w)) = Suc (Suc (time_reads w))"
    unfolding logger_prepare_unfold using c wl by (cases o1) simp_all
qed

lemma logger_returns:
  "fst (logger_prepare h q r w) = Returns () \<Longrightarrow>
   logger h q r next w = call_next next (snd (logger_prepare h q r w))"
  by (cases "logger_prepare h q r w") (simp add: logger_def)

lemma logger_throws:
  "fst (logger_prepare h q r w) = Throws e \<Longrightarrow>
   logger h q r next w = (Throws e, snd (logger_prepare h q r w))"
  by (cases "logger_prepare h q r w") (simp add: logger_def)

subsection \<open>Calls of \<^verbatim>\<open>res.end\<close>\<close>

lemma call_end_LoggingEnd_step:
  assumes "writeLog h (''['' @ rid @ ''] '' @ url @ '' - Request completed in ''
                   @ Number_toString (time_source w (time_reads w) - start) @ ''ms'')
              (Some INFO) (Some m) (w\<lparr>time_reads := Suc (time_reads w)\<rparr>) = (o1, w2)"
  shows "call_end h (LoggingEnd rid url m start orig) r args w =
           (case o1 of Throws e \<Rightarrow> (Throws e, w2)
            | Returns u \<Rightarrow> call_end h orig r [arg args 0, arg args 1, arg args 2] w2)"
  using assms by (simp add: Date_now_def Let_def)


lemma call_end_extends:
  "\<exists>new. dispatched (snd (call_end h e r args w)) = dispatched w @ new
         \<and> list_all (\<lambda>c. fst c = logAdapter w) new"
proof (induction e arbitrary: args w)
  case NativeEnd
  show ?case by simp
next
  case (LoggingEnd rid url m start orig)
  let ?msg = "''['' @ rid @ ''] '' @ url @ '' - Request completed in ''
                   @ Number_toString (time_source w (time_reads w) - start) @ ''ms''"
  let ?w1 = "w\<lparr>time_reads := Suc (time_reads w)\<rparr>"
  obtain o1 w2 where wl: "writeLog h ?msg (Some INFO) (Some m) ?w1 = (o1, w2)"
    by (cases "writeLog h ?msg (Some INFO) (Some m) ?w1")
  have k: "logAdapter w2 = logAdapter w"
    "dispatched w2 = dispatched w @ [(logAdapter w, INFO, ?msg, Some m)]"
    using writeLog_keeps[of h ?msg "Some INFO" "Some m" ?w1] wl by simp_all
  show ?case
  proof (cases o1)
    case (Throws x)
    then show ?thesis unfolding call_end_LoggingEnd_step[OF wl] using k by simp
  next
    case (Returns u)
    obtain new where n: "dispatched (snd (call_end h orig r [arg args 0, arg args 1, arg args 2] w2))
        = dispatched w2 @ new" "list_all (\<lambda>c. fst c = logAdapter w2) new"
      using LoggingEnd.IH[of "[arg args 0, arg args 1, arg args 2]" w2] by blast
    have "dispatched (snd (call_end h (LoggingEnd rid url m start orig) r args w))
        = dispatched w @ ((logAdapter w, INFO, ?msg, Some m) # new)"
      unfolding call_end_LoggingEnd_step[OF wl] using Returns k n by simp
    moreover have "list_all (\<lambda>c. fst c = logAdapter w) ((logAdapter w, INFO, ?msg, Some m) # new)"
      using n k by simp
    ultimately show ?thesis by blast
  qed
qed

text \<open>The first thing the closure of lines 120 to 124 does is its one log call.\<close>

lemma call_end_LoggingEnd_first:
  "take (Suc (length (dispatched w)))
     (dispatched (snd (call_end h (LoggingEnd rid url m start orig) r args w))) =
   dispatched w @ [(logAdapter w, INFO,
      ''['' @ rid @ ''] '' @ url @ '' - Request completed in ''
        @ Number_toString (time_source w (time_reads w) - start) @ ''ms'', Some m)]"
proof -
  let ?msg = "''['' @ rid @ ''] '' @ url @ '' - Request completed in ''
                   @ Number_toString (time_source w (time_reads w) - start) @ ''ms''"
  let ?w1 = "w\<lparr>time_reads := Suc (time_reads w)\<rparr>"
  obtain o1 w2 where wl: "writeLog h ?msg (Some INFO) (Some m) ?w1 = (o1, w2)"
    by (cases "writeLog h ?msg (Some INFO) (Some m) ?w1")
  have k: "dispatched w2 = dispatched w @ [(logAdapter w, INFO, ?msg, Some m)]"
    using writeLog_keeps[of h ?msg "Some INFO" "Some m" ?w1] wl by simp
  show ?thesis
  proof (cases o1)
    case (Throws x)
    then show ?thesis unfolding call_end_LoggingEnd_step[OF wl] using k by simp
  next
    case (Returns u)
    obtain new where n: "dispatched (snd (call_end h orig r [arg args 0, arg args 1, arg args 2] w2))
        = dispatched w2 @ new"
      using call_end_extends[of h orig r "[arg args 0, arg args 1, arg args 2]" w2] by blast
    show ?thesis unfolding call_end_LoggingEnd_step[OF wl] using Returns k n by simp
  qed
qed





subsection \<open>The example process\<close>

lemma full_disk_append:
  "fst (appendFileSync (disk full_disk_world) p s) = Throws ''Error: ENOSPC''"
  by (simp add: appendFileSync_def full_disk_world_def example_disk_def Let_def)

lemma example_append:
  "appendFileSync (disk (snd (module_load example_host example_world))) (log_path example_host) s =
     (Returns (), \<lparr>dirs = [[''srv''], [''srv'', ''app''], [''srv'', ''app'', ''log'']],
        files = [log_path example_host \<mapsto> s], io_fault = None, append_calls = 1\<rparr>)"
  by (simp add: appendFileSync_def module_load_def mkdirSync_def existsSync_def is_file_def
      ancestors_def logDir_def log_path_def join_def example_host_def example_world_def
      example_disk_def file_content_def Let_def upt_rec)

lemma loaded_world_reads:
  "time_source loaded_world (time_reads loaded_world) = 1000"
  "file_content (disk loaded_world) p = []"
  "console loaded_world = []"
  by (simp_all add: loaded_world_def module_load_def mkdirSync_def existsSync_def is_file_def
      ancestors_def logDir_def join_def example_host_def example_world_def
      example_disk_def file_content_def Let_def upt_rec)

lemma example_timestamp: "toLocaleString example_host 1000 = ''t1000''"
  by (simp add: example_host_def Number_toString_def)


lemma loaded_world_fields:
  "logAdapter loaded_world = DefaultLogAdapter"
  "time_source loaded_world = (\<lambda>n. 1000 + 7 * int n)"
  "time_reads loaded_world = 0"
  "uuid_source loaded_world (uuid_reads loaded_world) = ''id0''"
  "req_url (requests loaded_world q) = ''/health''"
  "req_method (requests loaded_world q) = ''GET''"
  "responses loaded_world r = NativeEnd"
  "dispatched loaded_world = []"
  "next_calls loaded_world = 0"
  by (simp_all add: loaded_world_def module_load_def mkdirSync_def existsSync_def is_file_def
      ancestors_def logDir_def join_def example_host_def example_world_def
      example_disk_def Let_def upt_rec)

lemma example_prepare_returns:
  "fst (logger_prepare example_host 0 0 loaded_world) = Returns ()"
  by (simp add: logger_prepare_default_returns loaded_world_fields)

lemma served_world_eq:
  "served_world =
     (snd (logger_prepare example_host 0 0 loaded_world))
       \<lparr>next_calls := Suc (next_calls (snd (logger_prepare example_host 0 0 loaded_world)))\<rparr>"
  by (simp add: served_world_def logger_returns[OF example_prepare_returns] call_next_def
      continue_ok_def)

lemma served_world_fields:
  "logAdapter served_world = DefaultLogAdapter"
  "time_source served_world = (\<lambda>n. 1000 + 7 * int n)"
  "time_reads served_world = 2"
  "responses served_world 0 = LoggingEnd ''id0'' ''/health'' ''GET'' 1000 NativeEnd"
  "dispatched served_world =
     [(DefaultLogAdapter, INFO, ''[id0] /health - Request started'', Some ''GET'')]"
  "next_calls served_world = 1"
  by (simp_all add: served_world_eq logger_prepare_keeps logger_prepare_clock
      logger_prepare_installs[OF example_prepare_returns] loaded_world_fields)

lemma example_clock_mono: "mono (\<lambda>n. 1000 + 7 * int n)"
  by (rule monoI) simp

section \<open>The specification, claim by claim\<close>

subsection \<open>The built-in adapter\<close>

text \<open>
  C1. For every level, message and optional method, \<^verbatim>\<open>DefaultLogAdapter.log\<close> returns
  and never throws, also when it is called as the bound adapter. It enters
  \<^verbatim>\<open>appendFileSync\<close> exactly once (no retry). If that append throws the error \<open>e\<close>,
  the console receives exactly one more line, on \<^verbatim>\<open>console.error\<close>, which is
  \<^verbatim>\<open>Failed to write log: \<close> followed by \<open>e\<close>, and the files and directories are
  as before.
\<close>

theorem DefaultLogAdapter_log_never_throws:
  "fst (DefaultLogAdapter_log h level message method w) = Returns ()
   \<and> fst (adapter_log h DefaultLogAdapter level message method w) = Returns ()
   \<and> append_calls (disk (snd (DefaultLogAdapter_log h level message method w)))
       = Suc (append_calls (disk w))
   \<and> (\<forall>e. fst (appendFileSync (disk w) (log_path h)
               (logMessage level message method
                  (toLocaleString h (time_source w (time_reads w))))) = Throws e
        \<longrightarrow> console (snd (DefaultLogAdapter_log h level message method w))
              = console w @ [(console_error, ''Failed to write log: '' @ e)]
          \<and> files (disk (snd (DefaultLogAdapter_log h level message method w))) = files (disk w)
          \<and> dirs (disk (snd (DefaultLogAdapter_log h level message method w))) = dirs (disk w))"
proof (intro conjI allI impI)
  show "fst (DefaultLogAdapter_log h level message method w) = Returns ()"
    by (rule DefaultLogAdapter_log_returns)
  show "fst (adapter_log h DefaultLogAdapter level message method w) = Returns ()"
    by (simp add: adapter_log_def Let_def DefaultLogAdapter_log_returns)
  show "append_calls (disk (snd (DefaultLogAdapter_log h level message method w)))
       = Suc (append_calls (disk w))"
  proof (cases rule: DefaultLogAdapter_log_cases[of w h level message "method"])
    case (ok d)
    then show ?thesis
      using appendFileSync_counts[of "disk w" "log_path h"
          "logMessage level message method (toLocaleString h (time_source w (time_reads w)))"]
      by (simp add: DefaultLogAdapter_log_ok)
  next
    case (fail e d)
    then show ?thesis
      using appendFileSync_counts[of "disk w" "log_path h"
          "logMessage level message method (toLocaleString h (time_source w (time_reads w)))"]
      by (simp add: DefaultLogAdapter_log_fail)
  qed
next
  fix e
  assume a: "fst (appendFileSync (disk w) (log_path h)
               (logMessage level message method
                  (toLocaleString h (time_source w (time_reads w))))) = Throws e"
  then obtain d where d: "appendFileSync (disk w) (log_path h)
               (logMessage level message method
                  (toLocaleString h (time_source w (time_reads w)))) = (Throws e, d)"
    by (metis prod.collapse)
  have d': "d = (disk w)\<lparr>append_calls := Suc (append_calls (disk w))\<rparr>"
    by (rule appendFileSync_throws_keeps[OF d])
  show "console (snd (DefaultLogAdapter_log h level message method w))
              = console w @ [(console_error, ''Failed to write log: '' @ e)]"
    by (simp add: DefaultLogAdapter_log_fail[OF d])
  show "files (disk (snd (DefaultLogAdapter_log h level message method w))) = files (disk w)"
    by (simp add: DefaultLogAdapter_log_fail[OF d] d')
  show "dirs (disk (snd (DefaultLogAdapter_log h level message method w))) = dirs (disk w)"
    by (simp add: DefaultLogAdapter_log_fail[OF d] d')
qed

theorem DefaultLogAdapter_log_never_throws_witness:
  "fst (DefaultLogAdapter_log example_host ERROR ''boom'' None full_disk_world) = Returns ()
   \<and> console (snd (DefaultLogAdapter_log example_host ERROR ''boom'' None full_disk_world))
       = [(console_error, ''Failed to write log: Error: ENOSPC'')]
   \<and> files (disk (snd (DefaultLogAdapter_log example_host ERROR ''boom'' None full_disk_world)))
       = Map.empty"
proof -
  have c: "console full_disk_world = []" and f: "files (disk full_disk_world) = Map.empty"
    by (simp_all add: full_disk_world_def example_world_def example_disk_def)
  show ?thesis
    using DefaultLogAdapter_log_never_throws[of example_host ERROR "''boom''" None full_disk_world]
      full_disk_append c f
    by simp
qed

text \<open>
  A method that is the empty string is supplied, yet falsy: the line has no method segment,
  where the specification's format has the empty method and its space.
\<close>

theorem logMessage_empty_method_counterexample:
  "logMessage INFO ''up'' (Some []) ''noon'' = ''[INFO] noon: up'' @ [CHR 0x0A]
   \<and> spec_plain_line INFO ''up'' (Some []) ''noon'' = ''[INFO]  noon: up'' @ [CHR 0x0A]
   \<and> logMessage INFO ''up'' (Some []) ''noon'' \<noteq> spec_plain_line INFO ''up'' (Some []) ''noon''"
  by (simp add: logMessage_def spec_plain_line_def)

text \<open>
  C6, amended. For every level, message, timestamp and optional method, the plain line is
  \<^verbatim>\<open>[LEVEL] \<close>, then the method and one space if and only if a method other than the
  empty string was supplied, then the timestamp, a colon and a space, the message and a line
  feed. It is the specification's line whenever the method is not the empty string. When
  the append succeeds, the log file grows by exactly this line.
\<close>

theorem logMessage_format:
  "logMessage level message method timestamp =
     ''['' @ level_str level @ ''] ''
       @ (case method of None \<Rightarrow> [] | Some m \<Rightarrow> if m = [] then [] else m @ '' '')
       @ timestamp @ '': '' @ message @ [CHR 0x0A]
   \<and> (method \<noteq> Some [] \<longrightarrow>
        logMessage level message method timestamp = spec_plain_line level message method timestamp)
   \<and> (\<forall>d. appendFileSync (disk w) (log_path h)
              (logMessage level message method (toLocaleString h (time_source w (time_reads w))))
            = (Returns (), d)
        \<longrightarrow> file_content (disk (snd (DefaultLogAdapter_log h level message method w))) (log_path h)
            = file_content (disk w) (log_path h)
                @ logMessage level message method (toLocaleString h (time_source w (time_reads w))))"
proof (intro conjI allI impI)
  show "logMessage level message method timestamp =
     ''['' @ level_str level @ ''] ''
       @ (case method of None \<Rightarrow> [] | Some m \<Rightarrow> if m = [] then [] else m @ '' '')
       @ timestamp @ '': '' @ message @ [CHR 0x0A]"
    by (cases "method") (simp_all add: logMessage_def)
next
  assume "method \<noteq> Some []"
  then show "logMessage level message method timestamp = spec_plain_line level message method timestamp"
    by (cases "method") (simp_all add: logMessage_def spec_plain_line_def)
next
  fix d
  assume a: "appendFileSync (disk w) (log_path h)
              (logMessage level message method (toLocaleString h (time_source w (time_reads w))))
            = (Returns (), d)"
  show "file_content (disk (snd (DefaultLogAdapter_log h level message method w))) (log_path h)
            = file_content (disk w) (log_path h)
                @ logMessage level message method (toLocaleString h (time_source w (time_reads w)))"
    by (simp add: DefaultLogAdapter_log_ok[OF a] appendFileSync_returns_content[OF a])
qed

theorem logMessage_format_witness:
  "logMessage WARN ''low disk'' (Some ''GET'') ''t1000'' = ''[WARN] GET t1000: low disk'' @ [CHR 0x0A]
   \<and> logMessage WARN ''low disk'' (Some ''GET'') ''t1000''
       = spec_plain_line WARN ''low disk'' (Some ''GET'') ''t1000''
   \<and> file_content (disk (snd (DefaultLogAdapter_log example_host WARN ''low disk'' (Some ''GET'')
         loaded_world))) (log_path example_host)
       = ''[WARN] GET t1000: low disk'' @ [CHR 0x0A]"
proof -
  have ok: "appendFileSync (disk loaded_world) (log_path example_host)
      (logMessage WARN ''low disk'' (Some ''GET'') ''t1000'') =
     (Returns (), \<lparr>dirs = [[''srv''], [''srv'', ''app''], [''srv'', ''app'', ''log'']],
        files = [log_path example_host \<mapsto> logMessage WARN ''low disk'' (Some ''GET'') ''t1000''],
        io_fault = None, append_calls = 1\<rparr>)"
    unfolding loaded_world_def by (rule example_append)
  show ?thesis
    using logMessage_format[of WARN "''low disk''" "Some ''GET''" "''t1000''" loaded_world example_host]
      ok
    by (simp add: loaded_world_reads example_timestamp logMessage_def spec_plain_line_def)
qed



text \<open>
  Loading the module where \<^verbatim>\<open>/srv/app/log\<close> is missing creates that directory, although
  no log call was made and no append was attempted.
\<close>

theorem module_load_creates_dir_counterexample:
  "\<not> existsSync (disk example_world) (logDir example_host)
   \<and> fst (module_load example_host example_world) = Returns ()
   \<and> existsSync (disk (snd (module_load example_host example_world))) (logDir example_host)
   \<and> append_calls (disk (snd (module_load example_host example_world))) = 0
   \<and> dispatched (snd (module_load example_host example_world)) = []"
  by (simp add: module_load_def mkdirSync_def existsSync_def is_file_def
      ancestors_def logDir_def join_def example_host_def example_world_def
      example_disk_def Let_def upt_rec)

text \<open>
  C8, amended. The directory \<^verbatim>\<open><cwd>/log\<close> is there as soon as the module has loaded,
  before any log write; loading creates no file and attempts no append. The file
  \<^verbatim>\<open><cwd>/log/app.log\<close> is created lazily: a log call through the built-in adapter
  never creates a directory, touches no other file, and the log file exists after a call
  whose append succeeded.
\<close>

theorem log_dir_at_load_file_at_first_write:
  "(fst (module_load h w) = Returns () \<longrightarrow>
       existsSync (disk (snd (module_load h w))) (logDir h))
   \<and> files (disk (snd (module_load h w))) = files (disk w)
   \<and> append_calls (disk (snd (module_load h w))) = append_calls (disk w)
   \<and> dirs (disk (snd (DefaultLogAdapter_log h level message method w))) = dirs (disk w)
   \<and> (\<forall>q. q \<noteq> log_path h \<longrightarrow>
         files (disk (snd (DefaultLogAdapter_log h level message method w))) q = files (disk w) q)
   \<and> (\<forall>d. appendFileSync (disk w) (log_path h)
              (logMessage level message method (toLocaleString h (time_source w (time_reads w))))
            = (Returns (), d)
        \<longrightarrow> is_file (disk (snd (DefaultLogAdapter_log h level message method w))) (log_path h))"
proof (intro conjI allI impI)
  fix d
  assume a: "appendFileSync (disk w) (log_path h)
              (logMessage level message method (toLocaleString h (time_source w (time_reads w))))
            = (Returns (), d)"
  show "is_file (disk (snd (DefaultLogAdapter_log h level message method w))) (log_path h)"
    by (simp add: DefaultLogAdapter_log_ok[OF a] appendFileSync_returns_file[OF a])
qed (simp_all add: module_load_exists module_load_files DefaultLogAdapter_log_disk
       appendFileSync_dirs appendFileSync_other_files)

theorem log_dir_at_load_file_at_first_write_witness:
  "fst (module_load example_host example_world) = Returns ()
   \<and> existsSync (disk loaded_world) (logDir example_host)
   \<and> files (disk loaded_world) = Map.empty
   \<and> is_file (disk (snd (DefaultLogAdapter_log example_host INFO ''up'' None loaded_world)))
        (log_path example_host)
   \<and> files (disk (snd (DefaultLogAdapter_log example_host INFO ''up'' None loaded_world)))
        [''srv'', ''app'', ''other.txt''] = None"
proof -
  have r: "fst (module_load example_host example_world) = Returns ()"
    by (simp add: module_load_def mkdirSync_def existsSync_def is_file_def
      ancestors_def logDir_def join_def example_host_def example_world_def
      example_disk_def Let_def upt_rec)
  have f: "files (disk example_world) = Map.empty"
    by (simp add: example_world_def example_disk_def)
  have ne: "[''srv'', ''app'', ''other.txt''] \<noteq> log_path example_host"
    by (simp add: log_path_def logDir_def join_def example_host_def)
  have ok: "appendFileSync (disk loaded_world) (log_path example_host)
      (logMessage INFO ''up'' None ''t1000'') =
     (Returns (), \<lparr>dirs = [[''srv''], [''srv'', ''app''], [''srv'', ''app'', ''log'']],
        files = [log_path example_host \<mapsto> logMessage INFO ''up'' None ''t1000''],
        io_fault = None, append_calls = 1\<rparr>)"
    unfolding loaded_world_def by (rule example_append)
  have l: "files (disk loaded_world) = Map.empty"
    using log_dir_at_load_file_at_first_write[of example_host example_world] f
    by (simp add: loaded_world_def)
  show ?thesis
    using log_dir_at_load_file_at_first_write[of example_host example_world]
      log_dir_at_load_file_at_first_write[of example_host loaded_world INFO "''up''" None]
      r f ne ok l
    by (simp add: loaded_world_reads example_timestamp loaded_world_def[symmetric])
qed

subsection \<open>The facade and the binding\<close>

text \<open>
  C3. For each of the four levels and every message \<open>M\<close>, the method of \<^verbatim>\<open>Log\<close> named
  after the level is one call of \<^verbatim>\<open>log\<close> on the adapter bound at the call, with the
  method's level, the message \<open>M\<close> and no method label; it adds exactly one record to the
  list of adapter calls.
\<close>

theorem Log_dispatches_once:
  "Log_info h M w = adapter_log h (logAdapter w) INFO M None w
   \<and> Log_warn h M w = adapter_log h (logAdapter w) WARN M None w
   \<and> Log_debug h M w = adapter_log h (logAdapter w) DEBUG M None w
   \<and> Log_error h M w = adapter_log h (logAdapter w) ERROR M None w
   \<and> dispatched (snd (Log_info h M w)) = dispatched w @ [(logAdapter w, INFO, M, None)]
   \<and> dispatched (snd (Log_warn h M w)) = dispatched w @ [(logAdapter w, WARN, M, None)]
   \<and> dispatched (snd (Log_debug h M w)) = dispatched w @ [(logAdapter w, DEBUG, M, None)]
   \<and> dispatched (snd (Log_error h M w)) = dispatched w @ [(logAdapter w, ERROR, M, None)]"
  by (simp add: Log_info_def Log_warn_def Log_debug_def Log_error_def writeLog_keeps)
     (simp add: writeLog_def)

text \<open>
  C5. \<^verbatim>\<open>setLogAdapter(a)\<close> changes the binding and nothing else, so the calls recorded
  before stay as they are. Every log call made afterwards through \<^verbatim>\<open>writeLog\<close>, the four
  methods of \<^verbatim>\<open>Log\<close>, the middleware, or a closure that the middleware installed
  \<^emph>\<open>before\<close> the replacement has \<open>a\<close> as its receiver: the binding is read when the call is
  made.
\<close>

theorem setLogAdapter_routes_later_calls:
  "logAdapter (setLogAdapter a w) = a
   \<and> dispatched (setLogAdapter a w) = dispatched w
   \<and> dispatched (snd (writeLog h M lv meth (setLogAdapter a w))) =
       dispatched w @ [(a, (case lv of None \<Rightarrow> INFO | Some l \<Rightarrow> l), M, meth)]
   \<and> dispatched (snd (Log_info h M (setLogAdapter a w))) = dispatched w @ [(a, INFO, M, None)]
   \<and> dispatched (snd (Log_warn h M (setLogAdapter a w))) = dispatched w @ [(a, WARN, M, None)]
   \<and> dispatched (snd (Log_debug h M (setLogAdapter a w))) = dispatched w @ [(a, DEBUG, M, None)]
   \<and> dispatched (snd (Log_error h M (setLogAdapter a w))) = dispatched w @ [(a, ERROR, M, None)]
   \<and> dispatched (snd (logger_prepare h q r (setLogAdapter a w))) =
       dispatched w @ [(a, INFO,
          ''['' @ uuid_source w (uuid_reads w) @ ''] '' @ req_url (requests w q)
            @ '' - Request started'', Some (req_method (requests w q)))]
   \<and> (\<exists>new. dispatched (snd (res_end h r args (setLogAdapter a w))) = dispatched w @ new
          \<and> list_all (\<lambda>c. fst c = a) new)
   \<and> (\<forall>rid url m start orig. responses w r = LoggingEnd rid url m start orig \<longrightarrow>
         take (Suc (length (dispatched w)))
           (dispatched (snd (res_end h r args (setLogAdapter a w)))) =
         dispatched w @ [(a, INFO,
            ''['' @ rid @ ''] '' @ url @ '' - Request completed in ''
              @ Number_toString (time_source w (time_reads w) - start) @ ''ms'', Some m)])"
proof -
  let ?w = "setLogAdapter a w"
  have s: "logAdapter ?w = a" "dispatched ?w = dispatched w" "responses ?w = responses w"
    "uuid_source ?w = uuid_source w" "uuid_reads ?w = uuid_reads w" "requests ?w = requests w"
    "time_source ?w = time_source w" "time_reads ?w = time_reads w"
    by (simp_all add: setLogAdapter_def)
  have e: "\<exists>new. dispatched (snd (res_end h r args ?w)) = dispatched w @ new
          \<and> list_all (\<lambda>c. fst c = a) new"
    using call_end_extends[of h "responses ?w r" r args ?w] s(1,2) by (simp add: res_end_def)
  have c: "\<forall>rid url m start orig. responses w r = LoggingEnd rid url m start orig \<longrightarrow>
         take (Suc (length (dispatched w))) (dispatched (snd (res_end h r args ?w))) =
         dispatched w @ [(a, INFO,
            ''['' @ rid @ ''] '' @ url @ '' - Request completed in ''
              @ Number_toString (time_source w (time_reads w) - start) @ ''ms'', Some m)]"
  proof (intro allI impI)
    fix rid url m start orig
    assume "responses w r = LoggingEnd rid url m start orig"
    then have "responses ?w r = LoggingEnd rid url m start orig" by (simp add: s)
    then show "take (Suc (length (dispatched w))) (dispatched (snd (res_end h r args ?w))) =
         dispatched w @ [(a, INFO,
            ''['' @ rid @ ''] '' @ url @ '' - Request completed in ''
              @ Number_toString (time_source w (time_reads w) - start) @ ''ms'', Some m)]"
      using call_end_LoggingEnd_first[of ?w h rid url m start orig r args]
      by (simp add: res_end_def s del: call_end.simps)
  qed
  have l: "dispatched (snd (logger_prepare h q r ?w)) =
       dispatched w @ [(a, INFO,
          ''['' @ uuid_source w (uuid_reads w) @ ''] '' @ req_url (requests w q)
            @ '' - Request started'', Some (req_method (requests w q)))]"
    by (simp add: logger_prepare_keeps s)
  show ?thesis
    using e c l
    by (simp add: s writeLog_keeps Log_info_def Log_warn_def Log_debug_def Log_error_def
        del: call_end.simps)
qed

theorem setLogAdapter_routes_later_calls_witness:
  "dispatched (setLogAdapter quiet_adapter served_world) =
     [(DefaultLogAdapter, INFO, ''[id0] /health - Request started'', Some ''GET'')]
   \<and> dispatched (snd (Log_warn example_host ''low disk'' (setLogAdapter quiet_adapter served_world))) =
     [(DefaultLogAdapter, INFO, ''[id0] /health - Request started'', Some ''GET''),
      (quiet_adapter, WARN, ''low disk'', None)]
   \<and> take (Suc (Suc 0))
       (dispatched (snd (res_end example_host 0 [] (setLogAdapter quiet_adapter served_world)))) =
     [(DefaultLogAdapter, INFO, ''[id0] /health - Request started'', Some ''GET''),
      (quiet_adapter, INFO, ''[id0] /health - Request completed in 14ms'', Some ''GET'')]"
proof -
  note t = setLogAdapter_routes_later_calls[of quiet_adapter served_world example_host
      "''low disk''" None None 0 0 "[]"]
  from t have "\<forall>rid url m start orig. responses served_world 0 = LoggingEnd rid url m start orig \<longrightarrow>
         take (Suc (length (dispatched served_world)))
           (dispatched (snd (res_end example_host 0 [] (setLogAdapter quiet_adapter served_world)))) =
         dispatched served_world @ [(quiet_adapter, INFO,
            ''['' @ rid @ ''] '' @ url @ '' - Request completed in ''
              @ Number_toString (time_source served_world (time_reads served_world) - start)
              @ ''ms'', Some m)]"
    by blast
  then have c: "take (Suc (Suc 0))
       (dispatched (snd (res_end example_host 0 [] (setLogAdapter quiet_adapter served_world)))) =
     [(DefaultLogAdapter, INFO, ''[id0] /health - Request started'', Some ''GET''),
      (quiet_adapter, INFO, ''[id0] /health - Request completed in 14ms'', Some ''GET'')]"
    using served_world_fields(4) by (simp add: served_world_fields Number_toString_14)
  show ?thesis
    using t c by (simp add: served_world_fields)
qed

subsection \<open>The middleware\<close>



text \<open>
  With an adapter bound whose \<^verbatim>\<open>log\<close> throws, \<^verbatim>\<open>logger\<close> throws the adapter's error and
  the continuation is not called.
\<close>

theorem logger_skips_next_counterexample:
  "fst (logger example_host 0 0 continue_ok throwing_world) = Throws ''Error: sink closed''
   \<and> next_calls throwing_world = 0
   \<and> next_calls (snd (logger example_host 0 0 continue_ok throwing_world)) = 0"
proof -
  have a: "logAdapter throwing_world = CustomAdapter 1 (\<lambda>level message method. Some ''Error: sink closed'')"
    by (simp add: throwing_world_def setLogAdapter_def failing_adapter_def)
  have n: "next_calls throwing_world = 0"
    by (simp add: throwing_world_def setLogAdapter_def loaded_world_fields)
  have t: "fst (logger_prepare example_host 0 0 throwing_world) = Throws ''Error: sink closed''"
    unfolding logger_prepare_outcome
    by (subst writeLog_custom_outcome[where n = 1
          and f = "\<lambda>level message method. Some ''Error: sink closed''"]) (simp_all add: a)
  show ?thesis
    using n by (simp add: logger_throws[OF t] logger_prepare_keeps)
qed

text \<open>
  C4, amended. Whenever the log call for the started line returns, as it always does with the
  built-in adapter bound, \<^verbatim>\<open>logger\<close> ends by calling the continuation, synchronously and
  exactly once: its result is the continuation's, run in the prepared state, and the count
  of continuation calls has grown by one. When that log call throws, \<^verbatim>\<open>logger\<close> throws the
  same error and has not called the continuation. (The continuation is any code that leaves
  the count of calls alone.)
\<close>

theorem logger_calls_next_once:
  assumes "\<And>v. next_calls (snd (next v)) = next_calls v"
  shows "(fst (logger_prepare h q r w) = Returns () \<longrightarrow>
            logger h q r next w =
              next ((snd (logger_prepare h q r w))\<lparr>next_calls := Suc (next_calls w)\<rparr>)
            \<and> next_calls (snd (logger h q r next w)) = Suc (next_calls w))
   \<and> (logAdapter w = DefaultLogAdapter \<longrightarrow>
         next_calls (snd (logger h q r next w)) = Suc (next_calls w))
   \<and> (\<forall>e. fst (logger_prepare h q r w) = Throws e \<longrightarrow>
         logger h q r next w = (Throws e, snd (logger_prepare h q r w))
         \<and> next_calls (snd (logger h q r next w)) = next_calls w)"
proof -
  have ret: "logger h q r next w =
              next ((snd (logger_prepare h q r w))\<lparr>next_calls := Suc (next_calls w)\<rparr>)
            \<and> next_calls (snd (logger h q r next w)) = Suc (next_calls w)"
    if "fst (logger_prepare h q r w) = Returns ()"
    using assms by (simp add: logger_returns[OF that] call_next_def logger_prepare_keeps)
  have thr: "logger h q r next w = (Throws e, snd (logger_prepare h q r w))
         \<and> next_calls (snd (logger h q r next w)) = next_calls w"
    if "fst (logger_prepare h q r w) = Throws e" for e
    by (simp add: logger_throws[OF that] logger_prepare_keeps)
  show ?thesis
    using ret thr logger_prepare_default_returns[of w h q r] by blast
qed

theorem logger_calls_next_once_witness:
  "fst (logger_prepare example_host 0 0 loaded_world) = Returns ()
   \<and> next_calls loaded_world = 0
   \<and> next_calls (snd (logger example_host 0 0 continue_ok loaded_world)) = 1"
proof -
  have k: "\<And>v. next_calls (snd (continue_ok v)) = next_calls v"
    by (simp add: continue_ok_def)
  show ?thesis
    using logger_calls_next_once[of continue_ok example_host 0 0 loaded_world, OF k]
      example_prepare_returns
    by (simp add: loaded_world_fields continue_ok_def)
qed

text \<open>
  C9. Let the middleware have installed its closure for a request, reading the clock for the
  start instant, and let the finalization fire later, on the same monotone clock, with the
  closure still the response's \<^verbatim>\<open>end\<close>. Then the completed line reports \<open>N\<close>, the
  instant read at completion minus the start instant; the completion instant is not before
  the start instant, \<open>N\<close> is not negative, and its rendering has digits only.
\<close>

theorem completed_duration:
  fixes h :: host and q r :: nat and w w2 :: world
  defines "rid \<equiv> uuid_source w (uuid_reads w)"
    and "url \<equiv> req_url (requests w q)"
    and "m \<equiv> req_method (requests w q)"
    and "start \<equiv> time_source w (time_reads w)"
    and "done \<equiv> time_source w2 (time_reads w2)"
  assumes installed: "fst (logger_prepare h q r w) = Returns ()"
    and still: "responses w2 r = responses (snd (logger_prepare h q r w)) r"
    and monotone: "mono (time_source w)"
    and same_clock: "time_source w2 = time_source w"
    and later: "time_reads w \<le> time_reads w2"
  shows "take (Suc (length (dispatched w2))) (dispatched (snd (res_end h r args w2))) =
           dispatched w2 @ [(logAdapter w2, INFO,
             ''['' @ rid @ ''] '' @ url @ '' - Request completed in ''
               @ Number_toString (done - start) @ ''ms'', Some m)]
   \<and> start \<le> done \<and> 0 \<le> done - start
   \<and> set (Number_toString (done - start)) \<subseteq> set ''0123456789''"
proof -
  have hook: "responses w2 r = LoggingEnd rid url m start (responses w r)"
    using still logger_prepare_installs[OF installed]
    by (simp add: rid_def url_def m_def start_def)
  have le: "start \<le> done"
    using monoD[OF monotone later] same_clock by (simp add: start_def done_def)
  have line: "take (Suc (length (dispatched w2))) (dispatched (snd (res_end h r args w2))) =
           dispatched w2 @ [(logAdapter w2, INFO,
             ''['' @ rid @ ''] '' @ url @ '' - Request completed in ''
               @ Number_toString (done - start) @ ''ms'', Some m)]"
    unfolding res_end_def hook done_def by (rule call_end_LoggingEnd_first)
  show ?thesis
    using line le Number_toString_nonneg_digits[of "done - start"] by simp
qed

theorem completed_duration_witness:
  "take (Suc (Suc 0)) (dispatched (snd (res_end example_host 0 [] served_world))) =
     [(DefaultLogAdapter, INFO, ''[id0] /health - Request started'', Some ''GET''),
      (DefaultLogAdapter, INFO, ''[id0] /health - Request completed in 14ms'', Some ''GET'')]
   \<and> (1000::int) \<le> 1014"
proof -
  have still: "responses served_world 0 = responses (snd (logger_prepare example_host 0 0 loaded_world)) 0"
    by (simp add: served_world_eq)
  have m: "mono (time_source loaded_world)"
    using example_clock_mono by (simp add: loaded_world_fields)
  have s: "time_source served_world = time_source loaded_world"
    by (simp add: served_world_fields loaded_world_fields)
  have l: "time_reads loaded_world \<le> time_reads served_world"
    by (simp add: served_world_fields loaded_world_fields)
  show ?thesis
    using completed_duration[OF example_prepare_returns still m s l, where args = "[]"]
    by (simp add: served_world_fields loaded_world_fields Number_toString_14)
qed



end
